theory Spec2Isabelle
  imports Complex_Main "HOL-Library.Word"
begin

section \<open>Data model\<close>

text \<open>
  A frame is a numpy array of shape (height, width, 3) with dtype uint8: a list of rows,
  each row a list of pixels, each pixel three 8-bit channels. The camera delivers the
  channels in blue-green-red order.

  The list representation stores no shape of its own: \<open>shape0\<close> is \<open>frame.shape[0]\<close>
  and \<open>shape1\<close> is \<open>frame.shape[1]\<close>. A frame with no row has lost its width in this
  representation, so statements about the width are made for frames with at least one row.
\<close>

type_synonym pixel = "8 word \<times> 8 word \<times> 8 word"
type_synonym frame = "pixel list list"

definition shape0 :: "frame \<Rightarrow> nat" where
  "shape0 frame = length frame"

definition shape1 :: "frame \<Rightarrow> nat" where
  "shape1 frame = (case frame of [] \<Rightarrow> 0 | row # _ \<Rightarrow> length row)"

text \<open>numpy arrays are rectangular: \<open>is_frame h w frame\<close> says so for height h and width w.\<close>

definition is_frame :: "nat \<Rightarrow> nat \<Rightarrow> frame \<Rightarrow> bool" where
  "is_frame h w frame \<longleftrightarrow> length frame = h \<and> list_all (\<lambda>row. length row = w) frame"

text \<open>Python tuples of ints: a colour as the source writes it, a point (x, y), and the
  detector's box (top, right, bottom, left).\<close>

type_synonym color = "int \<times> int \<times> int"
type_synonym point = "int \<times> int"
type_synonym facebox = "int \<times> int \<times> int \<times> int"

text \<open>A landmark set is a dict from feature name to a list of points; \<open>items()\<close> walks it
  in insertion order, so it is kept as an association list.\<close>

type_synonym landmark_set = "(string \<times> point list) list"

section \<open>The calls into the drawing library\<close>

text \<open>
  The three drawing calls the source makes, with the arguments it passes after the image:
  \<open>cv2.circle(img, center, radius, color, thickness)\<close>,
  \<open>cv2.putText(img, text, org, fontFace, fontScale, color, thickness)\<close> and
  \<open>cv2.rectangle(img, pt1, pt2, color, thickness)\<close>.
\<close>

datatype draw_call =
    Circle point int color int
  | PutText string point int rat color int
  | Rectangle point point color int

fun call_color :: "draw_call \<Rightarrow> color" where
  "call_color (Circle center radius color thickness) = color"
| "call_color (PutText text org fontFace fontScale color thickness) = color"
| "call_color (Rectangle pt1 pt2 color thickness) = color"

definition FONT_HERSHEY_SIMPLEX :: int where
  "FONT_HERSHEY_SIMPLEX = 0"

text \<open>
  Which pixels a call touches is decided inside the library (its rasteriser and its font),
  so it is a parameter: \<open>cover call x y\<close> says that the call paints column x of row y.
  A call writes its colour into the pixels it covers that lie inside the array and leaves
  every other pixel, and the shape of the array, as they were. The colour's components are
  stored saturated to 8 bits.
\<close>

type_synonym raster = "draw_call \<Rightarrow> int \<Rightarrow> int \<Rightarrow> bool"

definition saturate8 :: "int \<Rightarrow> 8 word" where
  "saturate8 c = word_of_int (max 0 (min 255 c))"

fun to_pixel :: "color \<Rightarrow> pixel" where
  "to_pixel (c0, c1, c2) = (saturate8 c0, saturate8 c1, saturate8 c2)"

fun paint_row :: "raster \<Rightarrow> draw_call \<Rightarrow> int \<Rightarrow> int \<Rightarrow> pixel list \<Rightarrow> pixel list" where
  "paint_row cover call y x [] = []"
| "paint_row cover call y x (p # row) =
     (if cover call x y then to_pixel (call_color call) else p)
       # paint_row cover call y (x + 1) row"

fun paint_rows :: "raster \<Rightarrow> draw_call \<Rightarrow> int \<Rightarrow> frame \<Rightarrow> frame" where
  "paint_rows cover call y [] = []"
| "paint_rows cover call y (row # rows) =
     paint_row cover call y 0 row # paint_rows cover call (y + 1) rows"

definition cv2_draw :: "raster \<Rightarrow> frame \<Rightarrow> draw_call \<Rightarrow> frame" where
  "cv2_draw cover img call = paint_rows cover call 0 img"

section \<open>Mirroring and channel order\<close>

text \<open>\<open>cv2.flip(src, flipCode)\<close>: 0 flips around the x-axis (the rows change places), a
  positive code around the y-axis (each row is reversed), a negative code around both.
  The source calls it with flipCode 1.\<close>

definition cv2_flip :: "frame \<Rightarrow> int \<Rightarrow> frame" where
  "cv2_flip src flipCode =
     (if flipCode = 0 then rev src
      else if flipCode > 0 then map rev src
      else rev (map rev src))"

text \<open>\<open>frame[:, :, ::-1]\<close> reverses the channel axis of every pixel.\<close>

fun reverse_channels :: "pixel \<Rightarrow> pixel" where
  "reverse_channels (c0, c1, c2) = (c2, c1, c0)"

definition channels_reversed :: "frame \<Rightarrow> frame" where
  "channels_reversed frame = map (map reverse_channels) frame"

section \<open>Face boxes (main, lines 80 to 90)\<close>

text \<open>
  The loop over \<open>face_locations\<close>: each box is widened by the padding, cut at the frame's
  borders, and handed to \<open>cv2.rectangle\<close>. \<open>h\<close> and \<open>w\<close> are \<open>frame.shape[:2]\<close>.
  \<open>box_calls\<close> is the sequence of rectangle calls the loop makes, \<open>draw_boxes\<close> their
  effect on the frame.
\<close>

fun box_calls :: "int \<Rightarrow> int \<Rightarrow> facebox list \<Rightarrow> draw_call list" where
  "box_calls h w [] = []"
| "box_calls h w ((box_top, box_right, box_bottom, box_left) # face_locations) =
     (let padding = 20;
          left = max 0 (box_left - padding);
          top = max 0 (box_top - padding);
          right = min w (box_right + padding);
          bottom = min h (box_bottom + padding)
      in Rectangle (left, top) (right, bottom) (0, 150, 0) 2
           # box_calls h w face_locations)"

definition draw_boxes :: "raster \<Rightarrow> frame \<Rightarrow> facebox list \<Rightarrow> frame" where
  "draw_boxes cover frame face_locations =
     foldl (cv2_draw cover) frame
       (box_calls (int (shape0 frame)) (int (shape1 frame)) face_locations)"

section \<open>The feature colour table (lines 6 to 16)\<close>

text \<open>The dict literal, in the order it is written; iterating a dict follows that order.\<close>

definition FEATURE_COLORS :: "(string \<times> color) list" where
  "FEATURE_COLORS =
     [(''chin'', (255, 0, 0)),
      (''left_eyebrow'', (0, 255, 0)),
      (''right_eyebrow'', (0, 255, 255)),
      (''nose_bridge'', (255, 255, 0)),
      (''nose_tip'', (255, 0, 255)),
      (''left_eye'', (0, 0, 255)),
      (''right_eye'', (255, 128, 0)),
      (''top_lip'', (128, 0, 128)),
      (''bottom_lip'', (0, 128, 128))]"

text \<open>\<open>d.get(key, default)\<close>.\<close>

definition dict_get :: "('k \<times> 'v) list \<Rightarrow> 'k \<Rightarrow> 'v \<Rightarrow> 'v" where
  "dict_get d key dflt = (case map_of d key of Some v \<Rightarrow> v | None \<Rightarrow> dflt)"

section \<open>draw_face_landmarks (lines 18 to 27)\<close>

text \<open>
  Three nested loops: over the landmark sets, over the items of each set, over the points
  of each item. \<open>landmark_calls\<close> is the sequence of \<open>cv2.circle\<close> calls they make,
  \<open>draw_face_landmarks\<close> their effect on the image (the source mutates it in place and
  returns nothing; the model returns the image).
\<close>

fun point_calls :: "color \<Rightarrow> point list \<Rightarrow> draw_call list" where
  "point_calls color [] = []"
| "point_calls color (point # points) = Circle point 2 color (- 1) # point_calls color points"

fun feature_calls :: "landmark_set \<Rightarrow> draw_call list" where
  "feature_calls [] = []"
| "feature_calls ((feature, points) # items) =
     (let color = dict_get FEATURE_COLORS feature (200, 200, 200)
      in point_calls color points @ feature_calls items)"

fun landmark_calls :: "landmark_set list \<Rightarrow> draw_call list" where
  "landmark_calls [] = []"
| "landmark_calls (landmarks # face_landmarks_list) =
     feature_calls landmarks @ landmark_calls face_landmarks_list"

definition draw_face_landmarks :: "raster \<Rightarrow> frame \<Rightarrow> landmark_set list \<Rightarrow> frame" where
  "draw_face_landmarks cover img face_landmarks_list =
     foldl (cv2_draw cover) img (landmark_calls face_landmarks_list)"

section \<open>add_legend_panel (lines 29 to 49)\<close>

text \<open>\<open>np.ones((height, width, 3), dtype=np.uint8) * k\<close>: an array of ones, every
  element multiplied in 8-bit arithmetic.\<close>

definition np_ones :: "nat \<Rightarrow> nat \<Rightarrow> frame" where
  "np_ones height width = replicate height (replicate width (1, 1, 1))"

fun times_pixel :: "8 word \<Rightarrow> pixel \<Rightarrow> pixel" where
  "times_pixel k (c0, c1, c2) = (c0 * k, c1 * k, c2 * k)"

definition np_times :: "frame \<Rightarrow> 8 word \<Rightarrow> frame" where
  "np_times a k = map (map (times_pixel k)) a"

text \<open>The loop over \<open>FEATURE_COLORS.items()\<close> with its running \<open>y_offset\<close>: one circle and
  one text per item.\<close>

fun legend_calls :: "(string \<times> color) list \<Rightarrow> int \<Rightarrow> draw_call list" where
  "legend_calls [] y_offset = []"
| "legend_calls ((feature, color) # items) y_offset =
     Circle (20, y_offset - 5) 6 color (- 1)
       # PutText feature (40, y_offset) FONT_HERSHEY_SIMPLEX (1 / 2) color 1
       # legend_calls items (y_offset + 30)"

text \<open>Lines 34 to 45: the panel as it is just before the stacking.\<close>

definition legend_panel :: "raster \<Rightarrow> nat \<Rightarrow> frame" where
  "legend_panel cover height =
     (let legend_width = 200;
          blank = np_times (np_ones height legend_width) 30;
          y_offset = 30
      in foldl (cv2_draw cover) blank (legend_calls FEATURE_COLORS y_offset))"

text \<open>Exceptions are values. \<open>np.hstack\<close> raises ValueError when the two arrays differ in
  their number of rows; every other exception comes from a library call and is named by
  the environment.\<close>

datatype exn = ValueError | LibraryError string

definition np_hstack :: "frame \<Rightarrow> frame \<Rightarrow> exn + frame" where
  "np_hstack a b =
     (if length a = length b then Inr (map2 (@) a b) else Inl ValueError)"

definition add_legend_panel :: "raster \<Rightarrow> frame \<Rightarrow> exn + frame" where
  "add_legend_panel cover frame =
     (let height = shape0 frame
      in np_hstack (legend_panel cover height) frame)"

section \<open>main (lines 51 to 108) and the script (lines 110, 111)\<close>

text \<open>
  The calls that reach outside the program, in the order they are made, form the trace:
  the camera, the console, the two detector calls with the image they are given, and the
  window. Drawing only changes arrays inside the program and shows in the trace through
  the image handed to \<open>imshow\<close>.
\<close>

datatype event =
    VideoCapture int
  | IsOpened
  | Read
  | Print string
  | FaceLocations frame
  | FaceLandmarks frame
  | Imshow string frame
  | WaitKey int
  | Release
  | DestroyAllWindows

text \<open>
  What the outside does in one pass through the loop body. \<open>raises s\<close> is the exception
  the library call at place s of the body raises, if it raises; the other fields are what
  the calls return when they return: \<open>captured\<close> is the frame of \<open>read()\<close>, None when
  \<open>read()\<close> reports failure, \<open>found_faces\<close> and \<open>found_landmarks\<close> are the detectors' results,
  \<open>key_code\<close> is the result of \<open>waitKey\<close>.
\<close>

datatype place =
    AtRead | AtFlip | AtReverse | AtFaceLocations | AtFaceLandmarks
  | AtRectangle | AtDrawLandmarks | AtAddLegend | AtImshow | AtWaitKey

record pass =
  raises :: "place \<Rightarrow> exn option"
  captured :: "frame option"
  found_faces :: "facebox list"
  found_landmarks :: "landmark_set list"
  key_code :: int

datatype control = Continue | Break

definition emit :: "event \<Rightarrow> event list \<times> 'r \<Rightarrow> event list \<times> 'r" where
  "emit ev rest = (ev # fst rest, snd rest)"

definition raise_or ::
  "pass \<Rightarrow> place \<Rightarrow> event list \<times> (exn + 'a) \<Rightarrow> event list \<times> (exn + 'a)" where
  "raise_or ps s rest = (case raises ps s of Some e \<Rightarrow> ([], Inl e) | None \<Rightarrow> rest)"

definition window_title :: string where
  "window_title = ''Face Detection with Landmarks & Legend''"

definition capture_warning :: string where
  "capture_warning = ''Warning: Failed to capture frame.''"

text \<open>The body of \<open>while True\<close> (lines 64 to 103). Its result is the exception that leaves
  it, or whether the loop goes on.\<close>

definition loop_body :: "raster \<Rightarrow> pass \<Rightarrow> event list \<times> (exn + control)" where
  "loop_body cover ps =
     emit Read (raise_or ps AtRead
      (case captured ps of
         None \<Rightarrow> emit (Print capture_warning) ([], Inr Continue)
       | Some frame0 \<Rightarrow>
           raise_or ps AtFlip (let frame = cv2_flip frame0 1 in
           raise_or ps AtReverse (let rgb_frame = channels_reversed frame in
           emit (FaceLocations rgb_frame) (raise_or ps AtFaceLocations (
           let face_locations = found_faces ps in
           emit (FaceLandmarks rgb_frame) (raise_or ps AtFaceLandmarks (
           let face_landmarks_list = found_landmarks ps in
           raise_or ps AtRectangle (let frame = draw_boxes cover frame face_locations in
           raise_or ps AtDrawLandmarks (
           let frame = draw_face_landmarks cover frame face_landmarks_list in
           raise_or ps AtAddLegend (
           case add_legend_panel cover frame of
             Inl e \<Rightarrow> ([], Inl e)
           | Inr output_frame \<Rightarrow>
               emit (Imshow window_title output_frame) (raise_or ps AtImshow (
               emit (WaitKey 1) (raise_or ps AtWaitKey
                 ([], Inr (if key_code ps > 0 then Break else Continue))))))))))))))))"

text \<open>
  The loop. It can run for ever, so it is given fuel: the number of passes it may make.
  \<open>Running\<close> is the loop that has used its fuel and is still inside \<open>while True\<close>.
  \<open>env i\<close> is the outside at pass i.
\<close>

datatype loop_exit = Running | Broke | Raised exn

fun main_loop :: "raster \<Rightarrow> (nat \<Rightarrow> pass) \<Rightarrow> nat \<Rightarrow> nat \<Rightarrow> event list \<times> loop_exit" where
  "main_loop cover env i 0 = ([], Running)"
| "main_loop cover env i (Suc fuel) =
     (case loop_body cover (env i) of
        (evs, Inl e) \<Rightarrow> (evs, Raised e)
      | (evs, Inr Break) \<Rightarrow> (evs, Broke)
      | (evs, Inr Continue) \<Rightarrow>
          (evs @ fst (main_loop cover env (Suc i) fuel),
           snd (main_loop cover env (Suc i) fuel)))"

text \<open>\<open>main\<close>: the camera is opened and tested; the loop runs inside try, and the finally
  block runs when the loop is left, by break or by an exception, which then goes on to the
  caller.\<close>

record world =
  camera_opens :: bool
  passes :: "nat \<Rightarrow> pass"

datatype outcome = Looping | Returned | Propagated exn

definition open_error :: string where
  "open_error = ''Error: Cannot access camera.''"

definition main :: "raster \<Rightarrow> world \<Rightarrow> nat \<Rightarrow> event list \<times> outcome" where
  "main cover wd fuel =
     (if \<not> camera_opens wd
      then ([VideoCapture 0, IsOpened, Print open_error], Returned)
      else
        (case main_loop cover (passes wd) 0 fuel of
           (evs, Running) \<Rightarrow> ([VideoCapture 0, IsOpened] @ evs, Looping)
         | (evs, Broke) \<Rightarrow>
             ([VideoCapture 0, IsOpened] @ evs @ [Release, DestroyAllWindows], Returned)
         | (evs, Raised e) \<Rightarrow>
             ([VideoCapture 0, IsOpened] @ evs @ [Release, DestroyAllWindows],
              Propagated e)))"

text \<open>The script calls \<open>main()\<close> and ends. The interpreter ends the process with status
  zero when \<open>main\<close> returns, and with a status other than zero when an exception leaves
  it.\<close>

datatype exit_status = Exit_zero | Exit_nonzero

definition script :: "raster \<Rightarrow> world \<Rightarrow> nat \<Rightarrow> event list \<times> exit_status option" where
  "script cover wd fuel =
     (case main cover wd fuel of
        (evs, Looping) \<Rightarrow> (evs, None)
      | (evs, Returned) \<Rightarrow> (evs, Some Exit_zero)
      | (evs, Propagated e) \<Rightarrow> (evs, Some Exit_nonzero))"

section \<open>Example inputs\<close>

text \<open>Concrete inputs on which the theorems below are exercised: a rasteriser that covers
  no pixel, a frame of one row and two columns, passes of the loop and worlds built from
  them. \<open>waitKey\<close> returns -1 when no key was pressed.

  \<open>example_raster\<close> is a rasteriser with the geometry of the three calls: a circle call
  covers the disc of its radius around the centre (every circle the program draws is
  filled), a text call covers a box of 10 columns per character that stands on the
  baseline and is 11 rows high, a rectangle call covers the outline between its two
  corners. It comes with a black frame of 640 by 480, two face boxes, the second in the
  lower right corner of that frame, and the landmarks of one face with a feature of the
  colour table and a feature that is not in the table.\<close>

definition blank_raster :: raster where
  "blank_raster call x y = False"

definition tiny_frame :: frame where
  "tiny_frame = [[(1, 2, 3), (4, 5, 6)]]"

definition quiet :: "place \<Rightarrow> exn option" where
  "quiet s = None"

definition failed_pass :: pass where
  "failed_pass =
     \<lparr>raises = quiet, captured = None, found_faces = [], found_landmarks = [],
      key_code = - 1\<rparr>"

definition empty_pass :: pass where
  "empty_pass =
     \<lparr>raises = quiet, captured = Some tiny_frame, found_faces = [], found_landmarks = [],
      key_code = - 1\<rparr>"

definition key_pass :: pass where
  "key_pass =
     \<lparr>raises = quiet, captured = Some tiny_frame, found_faces = [], found_landmarks = [],
      key_code = 113\<rparr>"

definition faulty_pass :: "place \<Rightarrow> pass" where
  "faulty_pass s =
     \<lparr>raises = quiet(s := Some (LibraryError ''cv2.error'')), captured = Some tiny_frame,
      found_faces = [], found_landmarks = [], key_code = - 1\<rparr>"

definition no_camera :: world where
  "no_camera = \<lparr>camera_opens = False, passes = (\<lambda>i. empty_pass)\<rparr>"

definition always_failing :: world where
  "always_failing = \<lparr>camera_opens = True, passes = (\<lambda>i. failed_pass)\<rparr>"

definition third_fails_fifth_key :: world where
  "third_fails_fifth_key =
     \<lparr>camera_opens = True,
      passes = (\<lambda>i. if i = 2 then failed_pass else if i = 4 then key_pass else empty_pass)\<rparr>"

definition faulty_world :: "place \<Rightarrow> world" where
  "faulty_world s =
     \<lparr>camera_opens = True, passes = (\<lambda>i. if i = 1 then faulty_pass s else empty_pass)\<rparr>"

fun example_raster :: raster where
  "example_raster (Circle (cx, cy) radius color thickness) x y =
     ((x - cx) * (x - cx) + (y - cy) * (y - cy) \<le> radius * radius)"
| "example_raster (PutText text (ox, oy) fontFace fontScale color thickness) x y =
     (ox \<le> x \<and> x < ox + 10 * int (length text) \<and> oy - 10 \<le> y \<and> y \<le> oy)"
| "example_raster (Rectangle (x1, y1) (x2, y2) color thickness) x y =
     (x1 \<le> x \<and> x \<le> x2 \<and> y1 \<le> y \<and> y \<le> y2
      \<and> (x = x1 \<or> x = x2 \<or> y = y1 \<or> y = y2))"

definition black_frame :: frame where
  "black_frame = replicate 480 (replicate 640 (0, 0, 0))"

definition corner_boxes :: "facebox list" where
  "corner_boxes = [(10, 100, 100, 10), (470, 640, 480, 630)]"

definition one_face :: "landmark_set list" where
  "one_face = [[(''left_eye'', [(20, 20), (25, 22)]), (''forehead'', [(1, 1)])]]"

section \<open>Properties\<close>

lemma paint_row_length: "length (paint_row cover call y x row) = length row"
  by (induction row arbitrary: x) simp_all

lemma paint_rows_length: "length (paint_rows cover call y rows) = length rows"
  by (induction rows arbitrary: y) simp_all

lemma paint_row_nth:
  "i < length row \<Longrightarrow>
   paint_row cover call y x row ! i =
     (if cover call (x + int i) y then to_pixel (call_color call) else row ! i)"
proof (induction row arbitrary: x i)
  case Nil
  then show ?case by simp
next
  case (Cons p row)
  show ?case
  proof (cases i)
    case 0
    then show ?thesis by simp
  next
    case (Suc j)
    with Cons.prems have "j < length row" by simp
    from Cons.IH [OF this, of "x + 1"] Suc show ?thesis
      by (simp add: algebra_simps)
  qed
qed

lemma paint_rows_nth:
  "j < length rows \<Longrightarrow>
   paint_rows cover call y rows ! j = paint_row cover call (y + int j) 0 (rows ! j)"
proof (induction rows arbitrary: y j)
  case Nil
  then show ?case by simp
next
  case (Cons row rows)
  show ?case
  proof (cases j)
    case 0
    then show ?thesis by simp
  next
    case (Suc k)
    with Cons.prems have "k < length rows" by simp
    from Cons.IH [OF this, of "y + 1"] Suc show ?thesis
      by (simp add: algebra_simps)
  qed
qed

lemma cv2_draw_length: "length (cv2_draw cover img call) = length img"
  by (simp add: cv2_draw_def paint_rows_length)

lemma cv2_draw_row_length:
  "j < length img \<Longrightarrow> length (cv2_draw cover img call ! j) = length (img ! j)"
  by (simp add: cv2_draw_def paint_rows_nth paint_row_length)

lemma cv2_draw_pixel:
  "j < length img \<Longrightarrow> i < length (img ! j) \<Longrightarrow>
   cv2_draw cover img call ! j ! i =
     (if cover call (int i) (int j) then to_pixel (call_color call) else img ! j ! i)"
  by (simp add: cv2_draw_def paint_rows_nth paint_row_nth)

lemma draw_all_length: "length (foldl (cv2_draw cover) img calls) = length img"
  by (induction calls arbitrary: img) (simp_all add: cv2_draw_length)

lemma draw_all_row_length:
  "j < length img \<Longrightarrow> length (foldl (cv2_draw cover) img calls ! j) = length (img ! j)"
  by (induction calls arbitrary: img) (simp_all add: cv2_draw_length cv2_draw_row_length)

lemma draw_all_pixel:
  "j < length img \<Longrightarrow> i < length (img ! j) \<Longrightarrow>
   foldl (cv2_draw cover) img calls ! j ! i =
     (case find (\<lambda>call. cover call (int i) (int j)) (rev calls) of
        None \<Rightarrow> img ! j ! i
      | Some call \<Rightarrow> to_pixel (call_color call))"
proof (induction calls rule: rev_induct)
  case Nil
  then show ?case by simp
next
  case (snoc call calls)
  then show ?case
    by (simp add: cv2_draw_pixel draw_all_length draw_all_row_length)
qed

lemma draw_all_is_frame:
  "is_frame h w img \<Longrightarrow> is_frame h w (foldl (cv2_draw cover) img calls)"
  unfolding is_frame_def list_all_length
  by (simp add: draw_all_length draw_all_row_length)

lemma box_calls_length: "length (box_calls h w face_locations) = length face_locations"
  by (induction h w face_locations rule: box_calls.induct) (simp_all add: Let_def)

lemma box_calls_nth:
  "i < length face_locations \<Longrightarrow>
   box_calls h w face_locations ! i =
     (case face_locations ! i of (box_top, box_right, box_bottom, box_left) \<Rightarrow>
        Rectangle (max 0 (box_left - 20), max 0 (box_top - 20))
                  (min w (box_right + 20), min h (box_bottom + 20)) (0, 150, 0) 2)"
proof (induction h w face_locations arbitrary: i rule: box_calls.induct)
  case (1 h w)
  then show ?case by simp
next
  case (2 h w box_top box_right box_bottom box_left face_locations)
  then show ?case by (cases i) (simp_all add: Let_def)
qed

lemma box_calls_map:
  "box_calls h w face_locations =
     map (\<lambda>(box_top, box_right, box_bottom, box_left).
            Rectangle (max 0 (box_left - 20), max 0 (box_top - 20))
                      (min w (box_right + 20), min h (box_bottom + 20)) (0, 150, 0) 2)
         face_locations"
  by (induction h w face_locations rule: box_calls.induct) (simp_all add: Let_def)

lemma draw_all_empty: "foldl (cv2_draw cover) [] calls = []"
  using draw_all_length [of cover "[]" calls] by simp

lemma draw_boxes_calls:
  assumes "is_frame h w frame"
  shows "draw_boxes cover frame face_locations =
           foldl (cv2_draw cover) frame (box_calls (int h) (int w) face_locations)"
proof (cases frame)
  case Nil
  then show ?thesis by (simp add: draw_boxes_def draw_all_empty)
next
  case (Cons row rows)
  with assms have "shape0 frame = h" and "shape1 frame = w"
    by (simp_all add: is_frame_def shape0_def shape1_def)
  then show ?thesis by (simp add: draw_boxes_def)
qed

lemma find_Some_in: "find P xs = Some x \<Longrightarrow> x \<in> set xs \<and> P x"
  by (induction xs) (auto split: if_splits)

lemma draw_same_color_pixel:
  assumes "j < length img" and "i < length (img ! j)"
    and "\<forall>call \<in> set calls. to_pixel (call_color call) = p"
  shows "foldl (cv2_draw cover) img calls ! j ! i =
           (if \<exists>call \<in> set calls. cover call (int i) (int j) then p else img ! j ! i)"
proof (cases "find (\<lambda>call. cover call (int i) (int j)) (rev calls)")
  case None
  then have "\<not> (\<exists>call \<in> set calls. cover call (int i) (int j))"
    by (simp add: find_None_iff)
  with None show ?thesis by (simp add: draw_all_pixel [OF assms(1,2)])
next
  case (Some call)
  then have "call \<in> set calls" and "cover call (int i) (int j)"
    using find_Some_in [of "\<lambda>call. cover call (int i) (int j)" "rev calls" call] by simp_all
  with Some assms(3) show ?thesis
    by (auto simp: draw_all_pixel [OF assms(1,2)])
qed

text \<open>
  C1. For a frame of height h and width w (its \<open>shape[:2]\<close>), the loop over the face boxes
  draws onto the frame exactly one rectangle call per box, each the box widened by 20 on
  every side and cut at 0 and at the frame's width and height, in colour (0, 150, 0) with
  thickness 2. For a box that lies within the frame, the corners handed to the call
  satisfy 0 \<le> left \<le> right \<le> w and 0 \<le> top \<le> bottom \<le> h, also when the
  box touches the border of the frame. The frame keeps its shape, and a pixel of it is
  (0, 150, 0) when one of these rectangles covers it and unchanged otherwise.
\<close>

theorem padded_box_within_frame:
  assumes "is_frame h w frame"
    and "i < length face_locations"
    and "face_locations ! i = (box_top, box_right, box_bottom, box_left)"
    and "0 \<le> box_left" and "box_left \<le> box_right" and "box_right \<le> int w"
    and "0 \<le> box_top" and "box_top \<le> box_bottom" and "box_bottom \<le> int h"
  shows "shape0 frame = h \<and> (0 < h \<longrightarrow> shape1 frame = w)
       \<and> (\<exists>calls left top right bottom.
           draw_boxes cover frame face_locations = foldl (cv2_draw cover) frame calls
         \<and> calls =
             map (\<lambda>(box_top, box_right, box_bottom, box_left).
                    Rectangle (max 0 (box_left - 20), max 0 (box_top - 20))
                      (min (int w) (box_right + 20), min (int h) (box_bottom + 20))
                      (0, 150, 0) 2)
                 face_locations
         \<and> calls ! i = Rectangle (left, top) (right, bottom) (0, 150, 0) 2
         \<and> left = max 0 (box_left - 20) \<and> top = max 0 (box_top - 20)
         \<and> right = min (int w) (box_right + 20) \<and> bottom = min (int h) (box_bottom + 20)
         \<and> 0 \<le> left \<and> left \<le> right \<and> right \<le> int w
         \<and> 0 \<le> top \<and> top \<le> bottom \<and> bottom \<le> int h
         \<and> is_frame h w (draw_boxes cover frame face_locations)
         \<and> (\<forall>y < h. \<forall>x < w.
               draw_boxes cover frame face_locations ! y ! x =
                 (if \<exists>call \<in> set calls. cover call (int x) (int y)
                  then (0, 150, 0) else frame ! y ! x)))"
proof -
  let ?calls = "box_calls (int h) (int w) face_locations"
  have shape_in: "shape0 frame = h \<and> (0 < h \<longrightarrow> shape1 frame = w)"
    using assms(1) by (cases frame) (simp_all add: is_frame_def shape0_def shape1_def)
  have drawn: "draw_boxes cover frame face_locations = foldl (cv2_draw cover) frame ?calls"
    using assms(1) by (rule draw_boxes_calls)
  have green: "\<forall>call \<in> set ?calls. to_pixel (call_color call) = (0, 150, 0)"
    by (auto simp: box_calls_map saturate8_def)
  have pixels: "\<forall>y < h. \<forall>x < w.
               draw_boxes cover frame face_locations ! y ! x =
                 (if \<exists>call \<in> set ?calls. cover call (int x) (int y)
                  then (0, 150, 0) else frame ! y ! x)"
  proof (intro allI impI)
    fix y x assume "y < h" and "x < w"
    with assms(1) have "y < length frame" and "x < length (frame ! y)"
      by (simp_all add: is_frame_def list_all_length)
    then show "draw_boxes cover frame face_locations ! y ! x =
                 (if \<exists>call \<in> set ?calls. cover call (int x) (int y)
                  then (0, 150, 0) else frame ! y ! x)"
      unfolding drawn using green by (rule draw_same_color_pixel)
  qed
  have shape: "is_frame h w (draw_boxes cover frame face_locations)"
    unfolding drawn using assms(1) by (rule draw_all_is_frame)
  have nth: "?calls ! i =
      Rectangle (max 0 (box_left - 20), max 0 (box_top - 20))
        (min (int w) (box_right + 20), min (int h) (box_bottom + 20)) (0, 150, 0) 2"
    using assms(2,3) by (simp add: box_calls_nth)
  have calls: "?calls =
             map (\<lambda>(box_top, box_right, box_bottom, box_left).
                    Rectangle (max 0 (box_left - 20), max 0 (box_top - 20))
                      (min (int w) (box_right + 20), min (int h) (box_bottom + 20))
                      (0, 150, 0) 2)
                 face_locations"
    by (rule box_calls_map)
  have bounds: "0 \<le> max 0 (box_left - 20)
      \<and> max 0 (box_left - 20) \<le> min (int w) (box_right + 20)
      \<and> min (int w) (box_right + 20) \<le> int w
      \<and> 0 \<le> max 0 (box_top - 20)
      \<and> max 0 (box_top - 20) \<le> min (int h) (box_bottom + 20)
      \<and> min (int h) (box_bottom + 20) \<le> int h"
    using assms(4-9) by simp
  from drawn calls nth bounds shape pixels
  have "\<exists>calls left top right bottom.
           draw_boxes cover frame face_locations = foldl (cv2_draw cover) frame calls
         \<and> calls =
             map (\<lambda>(box_top, box_right, box_bottom, box_left).
                    Rectangle (max 0 (box_left - 20), max 0 (box_top - 20))
                      (min (int w) (box_right + 20), min (int h) (box_bottom + 20))
                      (0, 150, 0) 2)
                 face_locations
         \<and> calls ! i = Rectangle (left, top) (right, bottom) (0, 150, 0) 2
         \<and> left = max 0 (box_left - 20) \<and> top = max 0 (box_top - 20)
         \<and> right = min (int w) (box_right + 20) \<and> bottom = min (int h) (box_bottom + 20)
         \<and> 0 \<le> left \<and> left \<le> right \<and> right \<le> int w
         \<and> 0 \<le> top \<and> top \<le> bottom \<and> bottom \<le> int h
         \<and> is_frame h w (draw_boxes cover frame face_locations)
         \<and> (\<forall>y < h. \<forall>x < w.
               draw_boxes cover frame face_locations ! y ! x =
                 (if \<exists>call \<in> set calls. cover call (int x) (int y)
                  then (0, 150, 0) else frame ! y ! x))"
    by blast
  with shape_in show ?thesis by blast
qed

text \<open>A black frame of 640 by 480 and two boxes, the second in the lower right corner of
  the frame: its rectangle is cut at (640, 480); the pixel on the rectangle's left edge is
  green, the pixel next to it inside the rectangle is still black.\<close>

theorem padded_box_within_frame_witness:
  "is_frame 480 640 black_frame
   \<and> shape0 black_frame = 480 \<and> shape1 black_frame = 640
   \<and> (1::nat) < length corner_boxes \<and> corner_boxes ! 1 = (470, 640, 480, 630)
   \<and> (0::int) \<le> 630 \<and> (630::int) \<le> 640 \<and> (640::int) \<le> int 640
   \<and> (0::int) \<le> 470 \<and> (470::int) \<le> 480 \<and> (480::int) \<le> int 480
   \<and> draw_boxes example_raster black_frame corner_boxes =
       foldl (cv2_draw example_raster) black_frame
         [Rectangle (0, 0) (120, 120) (0, 150, 0) 2,
          Rectangle (610, 450) (640, 480) (0, 150, 0) 2]
   \<and> draw_boxes example_raster black_frame corner_boxes ! 460 ! 610 = (0, 150, 0)
   \<and> draw_boxes example_raster black_frame corner_boxes ! 460 ! 611 = (0, 0, 0)"
proof -
  have fr: "is_frame 480 640 black_frame"
    by (simp add: is_frame_def black_frame_def list_all_length)
  have i: "(1::nat) < length corner_boxes" and b: "corner_boxes ! 1 = (470, 640, 480, 630)"
    by (simp_all add: corner_boxes_def)
  note inst = padded_box_within_frame [OF fr i b, of example_raster]
  from inst have sh: "shape0 black_frame = 480" "shape1 black_frame = 640" by simp_all
  from inst
  obtain calls where drawn: "draw_boxes example_raster black_frame corner_boxes
        = foldl (cv2_draw example_raster) black_frame calls"
    and calls: "calls =
             map (\<lambda>(box_top, box_right, box_bottom, box_left).
                    Rectangle (max 0 (box_left - 20), max 0 (box_top - 20))
                      (min (int 640) (box_right + 20), min (int 480) (box_bottom + 20))
                      (0, 150, 0) 2)
                 corner_boxes"
    and pixels: "\<forall>y < 480. \<forall>x < 640.
               draw_boxes example_raster black_frame corner_boxes ! y ! x =
                 (if \<exists>call \<in> set calls. example_raster call (int x) (int y)
                  then (0, 150, 0) else black_frame ! y ! x)"
    by auto
  have list: "calls = [Rectangle (0, 0) (120, 120) (0, 150, 0) 2,
          Rectangle (610, 450) (640, 480) (0, 150, 0) 2]"
    by (simp add: calls corner_boxes_def)
  have p1: "draw_boxes example_raster black_frame corner_boxes ! 460 ! 610 = (0, 150, 0)"
    using pixels [rule_format, of 460 610] by (simp add: list)
  have p2: "draw_boxes example_raster black_frame corner_boxes ! 460 ! 611 = (0, 0, 0)"
    using pixels [rule_format, of 460 611] by (simp add: list black_frame_def)
  from fr sh i b drawn list p1 p2 show ?thesis by simp
qed

lemma point_calls_set:
  "set (point_calls color points) = (\<lambda>point. Circle point 2 color (- 1)) ` set points"
  by (induction points) auto

lemma feature_calls_set:
  "set (feature_calls landmarks) =
     (\<Union>(feature, points) \<in> set landmarks.
        (\<lambda>point. Circle point 2 (dict_get FEATURE_COLORS feature (200, 200, 200)) (- 1))
          ` set points)"
  by (induction landmarks rule: feature_calls.induct) (auto simp: point_calls_set Let_def)

lemma landmark_calls_set:
  "set (landmark_calls face_landmarks_list) =
     (\<Union>landmarks \<in> set face_landmarks_list. set (feature_calls landmarks))"
  by (induction face_landmarks_list) auto

lemma distinct_feature_names: "distinct (map fst FEATURE_COLORS)"
  by (simp add: FEATURE_COLORS_def)

lemma dict_get_present:
  "(feature, color) \<in> set FEATURE_COLORS \<Longrightarrow> dict_get FEATURE_COLORS feature dflt = color"
  using distinct_feature_names by (simp add: dict_get_def)

lemma dict_get_absent:
  "feature \<notin> fst ` set FEATURE_COLORS \<Longrightarrow> dict_get FEATURE_COLORS feature dflt = dflt"
proof -
  assume "feature \<notin> fst ` set FEATURE_COLORS"
  then have "map_of FEATURE_COLORS feature = None"
    by (simp add: map_of_eq_None_iff)
  then show ?thesis by (simp add: dict_get_def)
qed

lemma landmark_call_cases:
  assumes "call \<in> set (landmark_calls face_landmarks_list)"
  shows "\<exists>lms \<in> set face_landmarks_list. \<exists>(f, ps) \<in> set lms. \<exists>p \<in> set ps. \<exists>c.
           ((f, c) \<in> set FEATURE_COLORS
            \<or> f \<notin> fst ` set FEATURE_COLORS \<and> c = (200, 200, 200))
           \<and> call = Circle p 2 c (- 1)"
proof -
  from assms obtain lms f ps p where in_list: "lms \<in> set face_landmarks_list"
    and in_set: "(f, ps) \<in> set lms" and in_points: "p \<in> set ps"
    and call: "call = Circle p 2 (dict_get FEATURE_COLORS f (200, 200, 200)) (- 1)"
    unfolding landmark_calls_set feature_calls_set by auto
  have "\<exists>c. ((f, c) \<in> set FEATURE_COLORS
            \<or> f \<notin> fst ` set FEATURE_COLORS \<and> c = (200, 200, 200))
           \<and> call = Circle p 2 c (- 1)"
  proof (cases "f \<in> fst ` set FEATURE_COLORS")
    case True
    then obtain c where c: "(f, c) \<in> set FEATURE_COLORS" by auto
    from call have "call = Circle p 2 c (- 1)"
      by (simp only: dict_get_present [OF c])
    with c show ?thesis by blast
  next
    case False
    with call show ?thesis by (simp add: dict_get_absent)
  qed
  with in_list in_set in_points show ?thesis by blast
qed

text \<open>
  C4. For every landmark set, every feature group in it and every point of the group, the
  landmark drawing makes a circle call at that point with radius 2 and thickness -1
  (filled), whose colour is the entry of the colour table for the feature name when the
  name is in the table, and the grey (200, 200, 200) when it is not. It makes no other
  call, and the image it returns is the given image with these calls drawn onto it: the
  image keeps its height, a pixel that no circle covers is unchanged, a covered pixel has
  the colour of one of the circles that cover it, and a pixel covered by the circle of the
  point and by no call of another colour has the colour of that feature.
\<close>

theorem landmark_circle_colors:
  assumes "landmarks \<in> set face_landmarks_list"
    and "(feature, points) \<in> set landmarks"
    and "point \<in> set points"
  shows "((feature, color) \<in> set FEATURE_COLORS \<longrightarrow>
            Circle point 2 color (- 1) \<in> set (landmark_calls face_landmarks_list))
       \<and> (feature \<notin> fst ` set FEATURE_COLORS \<longrightarrow>
            Circle point 2 (200, 200, 200) (- 1) \<in> set (landmark_calls face_landmarks_list))
       \<and> (\<forall>call \<in> set (landmark_calls face_landmarks_list).
            \<exists>lms \<in> set face_landmarks_list. \<exists>(f, ps) \<in> set lms. \<exists>p \<in> set ps. \<exists>c.
              ((f, c) \<in> set FEATURE_COLORS
               \<or> f \<notin> fst ` set FEATURE_COLORS \<and> c = (200, 200, 200))
              \<and> call = Circle p 2 c (- 1))
       \<and> draw_face_landmarks cover img face_landmarks_list
            = foldl (cv2_draw cover) img (landmark_calls face_landmarks_list)
       \<and> length (draw_face_landmarks cover img face_landmarks_list) = length img
       \<and> (\<forall>y < length img. \<forall>x < length (img ! y).
            ((\<forall>call \<in> set (landmark_calls face_landmarks_list).
                 \<not> cover call (int x) (int y)) \<longrightarrow>
               draw_face_landmarks cover img face_landmarks_list ! y ! x = img ! y ! x)
          \<and> ((\<exists>call \<in> set (landmark_calls face_landmarks_list).
                 cover call (int x) (int y)) \<longrightarrow>
               (\<exists>lms \<in> set face_landmarks_list. \<exists>(f, ps) \<in> set lms. \<exists>p \<in> set ps. \<exists>c.
                  ((f, c) \<in> set FEATURE_COLORS
                   \<or> f \<notin> fst ` set FEATURE_COLORS \<and> c = (200, 200, 200))
                  \<and> cover (Circle p 2 c (- 1)) (int x) (int y)
                  \<and> draw_face_landmarks cover img face_landmarks_list ! y ! x
                      = to_pixel c)))
       \<and> (\<forall>y < length img. \<forall>x < length (img ! y).
            ((feature, color) \<in> set FEATURE_COLORS
             \<or> feature \<notin> fst ` set FEATURE_COLORS \<and> color = (200, 200, 200)) \<longrightarrow>
            cover (Circle point 2 color (- 1)) (int x) (int y) \<longrightarrow>
            (\<forall>call \<in> set (landmark_calls face_landmarks_list).
               cover call (int x) (int y) \<longrightarrow> call_color call = color) \<longrightarrow>
            draw_face_landmarks cover img face_landmarks_list ! y ! x = to_pixel color)"
proof (intro conjI impI ballI allI)
  assume "(feature, color) \<in> set FEATURE_COLORS"
  then have "dict_get FEATURE_COLORS feature (200, 200, 200) = color"
    by (rule dict_get_present)
  with assms show "Circle point 2 color (- 1) \<in> set (landmark_calls face_landmarks_list)"
    unfolding landmark_calls_set feature_calls_set by force
next
  assume "feature \<notin> fst ` set FEATURE_COLORS"
  then have "dict_get FEATURE_COLORS feature (200, 200, 200) = (200, 200, 200)"
    by (rule dict_get_absent)
  with assms show "Circle point 2 (200, 200, 200) (- 1) \<in> set (landmark_calls face_landmarks_list)"
    unfolding landmark_calls_set feature_calls_set by force
next
  fix call
  assume "call \<in> set (landmark_calls face_landmarks_list)"
  then show "\<exists>lms \<in> set face_landmarks_list. \<exists>(f, ps) \<in> set lms. \<exists>p \<in> set ps. \<exists>c.
              ((f, c) \<in> set FEATURE_COLORS
               \<or> f \<notin> fst ` set FEATURE_COLORS \<and> c = (200, 200, 200))
              \<and> call = Circle p 2 c (- 1)"
    by (rule landmark_call_cases)
next
  show "draw_face_landmarks cover img face_landmarks_list
            = foldl (cv2_draw cover) img (landmark_calls face_landmarks_list)"
    by (simp add: draw_face_landmarks_def)
next
  show "length (draw_face_landmarks cover img face_landmarks_list) = length img"
    by (simp add: draw_face_landmarks_def draw_all_length)
next
  fix y x
  assume y: "y < length img" and x: "x < length (img ! y)"
    and none: "\<forall>call \<in> set (landmark_calls face_landmarks_list). \<not> cover call (int x) (int y)"
  then have "find (\<lambda>call. cover call (int x) (int y)) (rev (landmark_calls face_landmarks_list))
      = None"
    by (simp add: find_None_iff)
  then show "draw_face_landmarks cover img face_landmarks_list ! y ! x = img ! y ! x"
    by (simp add: draw_face_landmarks_def draw_all_pixel [OF y x])
next
  fix y x
  assume y: "y < length img" and x: "x < length (img ! y)"
    and some: "\<exists>call \<in> set (landmark_calls face_landmarks_list). cover call (int x) (int y)"
  then obtain call where
    found: "find (\<lambda>call. cover call (int x) (int y)) (rev (landmark_calls face_landmarks_list))
      = Some call"
    by (cases "find (\<lambda>call. cover call (int x) (int y)) (rev (landmark_calls face_landmarks_list))")
       (auto simp: find_None_iff)
  then have mem: "call \<in> set (landmark_calls face_landmarks_list)"
    and cov: "cover call (int x) (int y)"
    using find_Some_in [of "\<lambda>call. cover call (int x) (int y)"
        "rev (landmark_calls face_landmarks_list)" call] by simp_all
  have px: "draw_face_landmarks cover img face_landmarks_list ! y ! x
      = to_pixel (call_color call)"
    using found by (simp add: draw_face_landmarks_def draw_all_pixel [OF y x])
  from landmark_call_cases [OF mem]
  obtain lms f ps p c where a: "lms \<in> set face_landmarks_list" and b: "(f, ps) \<in> set lms"
    and c: "p \<in> set ps"
    and d: "(f, c) \<in> set FEATURE_COLORS
            \<or> f \<notin> fst ` set FEATURE_COLORS \<and> c = (200, 200, 200)"
    and e: "call = Circle p 2 c (- 1)"
    by blast
  from cov e have cov': "cover (Circle p 2 c (- 1)) (int x) (int y)" by simp
  from px e have px': "draw_face_landmarks cover img face_landmarks_list ! y ! x = to_pixel c"
    by simp
  from a b c d cov' px'
  show "\<exists>lms \<in> set face_landmarks_list. \<exists>(f, ps) \<in> set lms. \<exists>p \<in> set ps. \<exists>c.
                  ((f, c) \<in> set FEATURE_COLORS
                   \<or> f \<notin> fst ` set FEATURE_COLORS \<and> c = (200, 200, 200))
                  \<and> cover (Circle p 2 c (- 1)) (int x) (int y)
                  \<and> draw_face_landmarks cover img face_landmarks_list ! y ! x
                      = to_pixel c"
    by blast
next
  fix y x
  assume y: "y < length img" and x: "x < length (img ! y)"
    and col: "(feature, color) \<in> set FEATURE_COLORS
             \<or> feature \<notin> fst ` set FEATURE_COLORS \<and> color = (200, 200, 200)"
    and cov: "cover (Circle point 2 color (- 1)) (int x) (int y)"
    and only: "\<forall>call \<in> set (landmark_calls face_landmarks_list).
               cover call (int x) (int y) \<longrightarrow> call_color call = color"
  from col have "dict_get FEATURE_COLORS feature (200, 200, 200) = color"
    using dict_get_present [of feature color "(200, 200, 200)"]
      dict_get_absent [of feature "(200, 200, 200)"] by blast
  with assms have "Circle point 2 color (- 1) \<in> set (landmark_calls face_landmarks_list)"
    unfolding landmark_calls_set feature_calls_set by force
  with cov obtain call where
    found: "find (\<lambda>call. cover call (int x) (int y)) (rev (landmark_calls face_landmarks_list))
      = Some call"
    by (cases "find (\<lambda>call. cover call (int x) (int y)) (rev (landmark_calls face_landmarks_list))")
       (auto simp: find_None_iff)
  then have "call \<in> set (landmark_calls face_landmarks_list)"
    and "cover call (int x) (int y)"
    using find_Some_in [of "\<lambda>call. cover call (int x) (int y)"
        "rev (landmark_calls face_landmarks_list)" call] by simp_all
  with only have "call_color call = color" by blast
  with found show "draw_face_landmarks cover img face_landmarks_list ! y ! x = to_pixel color"
    by (simp add: draw_face_landmarks_def draw_all_pixel [OF y x])
qed

text \<open>One face with a feature of the table and a feature that is not in the table, drawn
  on the black frame: the pixel at the first point of the eye has the table's colour, the
  pixel at the other feature's point is grey, a pixel away from all points is black.\<close>

theorem landmark_circle_colors_witness:
  "hd one_face \<in> set one_face
   \<and> (''left_eye'', [(20, 20), (25, 22)]) \<in> set (hd one_face)
   \<and> (20, 20) \<in> set [(20, 20), (25, 22) :: point]
   \<and> (''left_eye'', (0, 0, 255)) \<in> set FEATURE_COLORS
   \<and> ''forehead'' \<notin> fst ` set FEATURE_COLORS
   \<and> Circle (20, 20) 2 (0, 0, 255) (- 1) \<in> set (landmark_calls one_face)
   \<and> Circle (1, 1) 2 (200, 200, 200) (- 1) \<in> set (landmark_calls one_face)
   \<and> draw_face_landmarks example_raster black_frame one_face ! 20 ! 20 = (0, 0, 255)
   \<and> draw_face_landmarks example_raster black_frame one_face ! 1 ! 1 = (200, 200, 200)
   \<and> draw_face_landmarks example_raster black_frame one_face ! 100 ! 100 = (0, 0, 0)"
proof -
  have a: "hd one_face \<in> set one_face" by (simp add: one_face_def)
  have b: "(''left_eye'', [(20, 20), (25, 22)]) \<in> set (hd one_face)"
    by (simp add: one_face_def)
  have c: "(20, 20) \<in> set [(20, 20), (25, 22) :: point]" by simp
  have d: "(''forehead'', [(1, 1)]) \<in> set (hd one_face)" by (simp add: one_face_def)
  have e: "(1, 1) \<in> set [(1, 1) :: point]" by simp
  have f: "(''left_eye'', (0, 0, 255)) \<in> set FEATURE_COLORS"
    by (simp add: FEATURE_COLORS_def)
  have g: "''forehead'' \<notin> fst ` set FEATURE_COLORS"
    by (simp add: FEATURE_COLORS_def)
  have calls: "landmark_calls one_face =
      [Circle (20, 20) 2 (0, 0, 255) (- 1), Circle (25, 22) 2 (0, 0, 255) (- 1),
       Circle (1, 1) 2 (200, 200, 200) (- 1)]"
    by (simp add: one_face_def dict_get_def FEATURE_COLORS_def Let_def)
  have len: "(20::nat) < length black_frame" "(20::nat) < length (black_frame ! 20)"
    "(1::nat) < length black_frame" "(1::nat) < length (black_frame ! 1)"
    "(100::nat) < length black_frame" "(100::nat) < length (black_frame ! 100)"
    by (simp_all add: black_frame_def)
  note eye = landmark_circle_colors [OF a b c, of "(0, 0, 255)" example_raster black_frame]
  note brow = landmark_circle_colors [OF a d e, of "(0, 0, 0)" example_raster black_frame]
  from eye f have one: "Circle (20, 20) 2 (0, 0, 255) (- 1) \<in> set (landmark_calls one_face)"
    by blast
  from brow g have two: "Circle (1, 1) 2 (200, 200, 200) (- 1) \<in> set (landmark_calls one_face)"
    by blast
  from eye have pixels: "\<forall>y < length black_frame. \<forall>x < length (black_frame ! y).
            ((\<forall>call \<in> set (landmark_calls one_face).
                 \<not> example_raster call (int x) (int y)) \<longrightarrow>
               draw_face_landmarks example_raster black_frame one_face ! y ! x
                 = black_frame ! y ! x)
          \<and> ((\<exists>call \<in> set (landmark_calls one_face).
                 example_raster call (int x) (int y)) \<longrightarrow>
               (\<exists>lms \<in> set one_face. \<exists>(f, ps) \<in> set lms. \<exists>p \<in> set ps. \<exists>c.
                  ((f, c) \<in> set FEATURE_COLORS
                   \<or> f \<notin> fst ` set FEATURE_COLORS \<and> c = (200, 200, 200))
                  \<and> example_raster (Circle p 2 c (- 1)) (int x) (int y)
                  \<and> draw_face_landmarks example_raster black_frame one_face ! y ! x
                      = to_pixel c))"
    by blast
  have cov1: "\<exists>call \<in> set (landmark_calls one_face). example_raster call (int 20) (int 20)"
    by (simp add: calls)
  have cov2: "\<exists>call \<in> set (landmark_calls one_face). example_raster call (int 1) (int 1)"
    by (simp add: calls)
  have cov3: "\<forall>call \<in> set (landmark_calls one_face). \<not> example_raster call (int 100) (int 100)"
    by (simp add: calls)
  from pixels len(1,2) cov1 have
    "\<exists>lms \<in> set one_face. \<exists>(f, ps) \<in> set lms. \<exists>p \<in> set ps. \<exists>c.
        ((f, c) \<in> set FEATURE_COLORS
         \<or> f \<notin> fst ` set FEATURE_COLORS \<and> c = (200, 200, 200))
        \<and> example_raster (Circle p 2 c (- 1)) (int 20) (int 20)
        \<and> draw_face_landmarks example_raster black_frame one_face ! 20 ! 20 = to_pixel c"
    by blast
  hence p1: "draw_face_landmarks example_raster black_frame one_face ! 20 ! 20 = (0, 0, 255)"
    unfolding one_face_def
    by (auto simp: FEATURE_COLORS_def saturate8_def)
  from pixels len(3,4) cov2 have
    "\<exists>lms \<in> set one_face. \<exists>(f, ps) \<in> set lms. \<exists>p \<in> set ps. \<exists>c.
        ((f, c) \<in> set FEATURE_COLORS
         \<or> f \<notin> fst ` set FEATURE_COLORS \<and> c = (200, 200, 200))
        \<and> example_raster (Circle p 2 c (- 1)) (int 1) (int 1)
        \<and> draw_face_landmarks example_raster black_frame one_face ! 1 ! 1 = to_pixel c"
    by blast
  hence p2: "draw_face_landmarks example_raster black_frame one_face ! 1 ! 1 = (200, 200, 200)"
    unfolding one_face_def
    by (auto simp: FEATURE_COLORS_def saturate8_def)
  from pixels len(5,6) cov3
  have "draw_face_landmarks example_raster black_frame one_face ! 100 ! 100
          = black_frame ! 100 ! 100"
    by blast
  hence p3: "draw_face_landmarks example_raster black_frame one_face ! 100 ! 100 = (0, 0, 0)"
    by (simp add: black_frame_def)
  from a b c f g one two p1 p2 p3 show ?thesis by simp
qed


lemma np_blank:
  "np_times (np_ones height width) 30 = replicate height (replicate width (30, 30, 30))"
  by (simp add: np_times_def np_ones_def)

lemma legend_panel_is_frame: "is_frame height 200 (legend_panel cover height)"
  unfolding legend_panel_def Let_def np_blank
  by (rule draw_all_is_frame) (simp add: is_frame_def list_all_length)












lemma hstack_take:
  assumes "length a = length b" and "\<forall>row \<in> set a. length row = n"
  shows "map (take n) (map2 (@) a b) = a"
  using assms by (induction a b rule: list_induct2) simp_all

lemma hstack_drop:
  assumes "length a = length b" and "\<forall>row \<in> set a. length row = n"
  shows "map (drop n) (map2 (@) a b) = b"
  using assms by (induction a b rule: list_induct2) simp_all

lemma hstack_is_frame:
  assumes "is_frame h n a" and "is_frame h w b"
  shows "is_frame h (n + w) (map2 (@) a b)"
  using assms unfolding is_frame_def list_all_length by simp

lemma shape1_is_frame: "is_frame h w frame \<Longrightarrow> 0 < h \<Longrightarrow> shape1 frame = w"
  by (cases frame) (simp_all add: is_frame_def shape1_def)

text \<open>
  C6. For a frame of height h and width w with at least one row and one column, attaching
  the legend returns (it does not raise) an image of height h and width 200 + w; its
  leftmost 200 columns are the legend panel and the remaining columns are the frame.
\<close>

theorem add_legend_panel_shape:
  assumes "is_frame h w frame" and "0 < h" and "0 < w"
  shows "\<exists>output. add_legend_panel cover frame = Inr output
           \<and> shape0 output = h \<and> shape1 output = 200 + w
           \<and> is_frame h (200 + w) output
           \<and> map (take 200) output = legend_panel cover h
           \<and> map (drop 200) output = frame"
proof -
  let ?legend = "legend_panel cover h"
  let ?output = "map2 (@) ?legend frame"
  from assms(1) have len: "length frame = h" by (simp add: is_frame_def)
  have legend: "is_frame h 200 ?legend" by (rule legend_panel_is_frame)
  then have llen: "length ?legend = length frame"
    and rows: "\<forall>row \<in> set ?legend. length row = 200"
    by (simp_all add: is_frame_def len list_all_iff)
  have out: "add_legend_panel cover frame = Inr ?output"
    by (simp add: add_legend_panel_def np_hstack_def shape0_def len llen [unfolded len])
  have fr: "is_frame h (200 + w) ?output"
    using legend assms(1) by (rule hstack_is_frame)
  have "shape0 ?output = h" using fr by (simp add: shape0_def is_frame_def)
  moreover have "shape1 ?output = 200 + w" using fr assms(2) by (rule shape1_is_frame)
  moreover have "map (take 200) ?output = ?legend" using llen rows by (rule hstack_take)
  moreover have "map (drop 200) ?output = frame" using llen rows by (rule hstack_drop)
  ultimately show ?thesis using out fr by blast
qed

text \<open>A black frame of two rows and three columns.\<close>

theorem add_legend_panel_shape_witness:
  "is_frame 2 3 (replicate 2 (replicate 3 (0, 0, 0))) \<and> (0::nat) < 2 \<and> (0::nat) < 3
   \<and> (\<exists>output. add_legend_panel (\<lambda>call x y. False) (replicate 2 (replicate 3 (0, 0, 0)))
                   = Inr output
         \<and> shape0 output = 2 \<and> shape1 output = 203)"
proof -
  have fr: "is_frame 2 3 (replicate 2 (replicate 3 (0, 0, 0)))"
    by (simp add: is_frame_def list_all_length)
  from add_legend_panel_shape [OF fr, of "\<lambda>call x y. False"] fr
  show ?thesis by auto
qed

lemma legend_panel_length: "length (legend_panel cover height) = height"
  using legend_panel_is_frame [of height cover] by (simp add: is_frame_def)

lemma add_legend_panel_Inr:
  "add_legend_panel cover frame = Inr (map2 (@) (legend_panel cover (length frame)) frame)"
  by (simp add: add_legend_panel_def np_hstack_def shape0_def legend_panel_length)

lemma cv2_flip_length: "length (cv2_flip src flipCode) = length src"
  by (simp add: cv2_flip_def)

lemma loop_body_failed_read:
  "raises ps AtRead = None \<Longrightarrow> captured ps = None \<Longrightarrow>
   loop_body cover ps = ([Read, Print capture_warning], Inr Continue)"
  by (simp add: loop_body_def raise_or_def emit_def)

lemma loop_body_success:
  assumes "\<forall>s. raises ps s = None" and "captured ps = Some frame0"
  shows "loop_body cover ps =
     ([Read,
       FaceLocations (channels_reversed (cv2_flip frame0 1)),
       FaceLandmarks (channels_reversed (cv2_flip frame0 1)),
       Imshow window_title
         (map2 (@)
            (legend_panel cover (length frame0))
            (draw_face_landmarks cover
               (draw_boxes cover (cv2_flip frame0 1) (found_faces ps)) (found_landmarks ps))),
       WaitKey 1],
      Inr (if key_code ps > 0 then Break else Continue))"
  using assms
  by (simp add: loop_body_def raise_or_def emit_def add_legend_panel_Inr Let_def
        draw_face_landmarks_def draw_boxes_def draw_all_length cv2_flip_length)

lemma loop_body_detector_calls:
  assumes "captured ps = Some frame0"
    and "FaceLocations img \<in> set (fst (loop_body cover ps))
         \<or> FaceLandmarks img \<in> set (fst (loop_body cover ps))"
  shows "img = channels_reversed (cv2_flip frame0 1)"
  using assms
  by (auto simp: loop_body_def raise_or_def emit_def add_legend_panel_Inr Let_def
        split: option.splits)

lemma loop_body_no_cleanup:
  "Release \<notin> set (fst (loop_body cover ps))
   \<and> DestroyAllWindows \<notin> set (fst (loop_body cover ps))"
  by (auto simp: loop_body_def raise_or_def emit_def add_legend_panel_Inr Let_def
        split: option.splits)

lemma main_loop_failed_step:
  assumes "raises (env i) AtRead = None" and "captured (env i) = None"
  shows "main_loop cover env i (Suc fuel) =
     ([Read, Print capture_warning] @ fst (main_loop cover env (Suc i) fuel),
      snd (main_loop cover env (Suc i) fuel))"
  using assms by (simp add: loop_body_failed_read)

lemma main_loop_all_failed:
  "(\<forall>j < n. raises (env (i + j)) AtRead = None \<and> captured (env (i + j)) = None) \<Longrightarrow>
   main_loop cover env i n = (concat (replicate n [Read, Print capture_warning]), Running)"
proof (induction n arbitrary: i)
  case 0
  then show ?case by simp
next
  case (Suc n)
  from Suc.prems have here: "raises (env i) AtRead = None" "captured (env i) = None"
    by force+
  have "\<forall>j < n. raises (env (Suc i + j)) AtRead = None \<and> captured (env (Suc i + j)) = None"
  proof (intro allI impI)
    fix j assume "j < n"
    then have "Suc j < Suc n" by simp
    with Suc.prems show "raises (env (Suc i + j)) AtRead = None \<and> captured (env (Suc i + j)) = None"
      by (metis add_Suc_shift)
  qed
  then have "main_loop cover env (Suc i) n
      = (concat (replicate n [Read, Print capture_warning]), Running)"
    by (rule Suc.IH)
  with here show ?case by (simp add: loop_body_failed_read)
qed

text \<open>
  C2. A pass of the loop in which \<open>read()\<close> reports failure prints the warning and does
  nothing else: no detector call, no drawing, no display, no release of the camera; the
  loop goes on with the next pass. There is no limit: when the camera opens and the first n
  reads all fail, the program has printed n warnings and is still inside the loop, with the
  camera not released.
\<close>

theorem failed_read_keeps_loop_alive:
  "(raises (env i) AtRead = None \<and> captured (env i) = None \<longrightarrow>
      loop_body cover (env i) = ([Read, Print capture_warning], Inr Continue)
    \<and> main_loop cover env i (Suc fuel) =
        ([Read, Print capture_warning] @ fst (main_loop cover env (Suc i) fuel),
         snd (main_loop cover env (Suc i) fuel)))
   \<and> (camera_opens wd
       \<and> (\<forall>j < n. raises (passes wd j) AtRead = None \<and> captured (passes wd j) = None) \<longrightarrow>
      main cover wd n =
        ([VideoCapture 0, IsOpened] @ concat (replicate n [Read, Print capture_warning]),
         Looping))"
proof (intro conjI impI)
  assume "raises (env i) AtRead = None \<and> captured (env i) = None"
  then show "loop_body cover (env i) = ([Read, Print capture_warning], Inr Continue)"
    by (simp add: loop_body_failed_read)
next
  assume "raises (env i) AtRead = None \<and> captured (env i) = None"
  then show "main_loop cover env i (Suc fuel) =
        ([Read, Print capture_warning] @ fst (main_loop cover env (Suc i) fuel),
         snd (main_loop cover env (Suc i) fuel))"
    by (intro main_loop_failed_step) simp_all
next
  assume a: "camera_opens wd
       \<and> (\<forall>j < n. raises (passes wd j) AtRead = None \<and> captured (passes wd j) = None)"
  then have "main_loop cover (passes wd) 0 n
      = (concat (replicate n [Read, Print capture_warning]), Running)"
    by (intro main_loop_all_failed) simp
  with a show "main cover wd n =
        ([VideoCapture 0, IsOpened] @ concat (replicate n [Read, Print capture_warning]),
         Looping)"
    by (simp add: main_def)
qed

text \<open>A camera that opens and never delivers a frame.\<close>

theorem failed_read_keeps_loop_alive_witness:
  "raises (passes always_failing 7) AtRead = None \<and> captured (passes always_failing 7) = None
   \<and> camera_opens always_failing
   \<and> loop_body blank_raster (passes always_failing 7)
       = ([Read, Print capture_warning], Inr Continue)
   \<and> main blank_raster always_failing 3 =
       ([VideoCapture 0, IsOpened, Read, Print capture_warning, Read, Print capture_warning,
         Read, Print capture_warning], Looping)"
proof -
  have a: "raises (passes always_failing j) AtRead = None \<and> captured (passes always_failing j) = None"
    for j by (simp add: always_failing_def failed_pass_def quiet_def)
  have b: "camera_opens always_failing" by (simp add: always_failing_def)
  from failed_read_keeps_loop_alive [of "passes always_failing" 7 blank_raster 0 always_failing 3] a b
  show ?thesis by (simp add: numeral_3_eq_3)
qed

lemma main_loop_no_cleanup:
  "Release \<notin> set (fst (main_loop cover env i fuel))
   \<and> DestroyAllWindows \<notin> set (fst (main_loop cover env i fuel))"
proof (induction fuel arbitrary: i)
  case 0
  then show ?case by simp
next
  case (Suc fuel)
  obtain evs r where body: "loop_body cover (env i) = (evs, r)"
    by (cases "loop_body cover (env i)")
  with loop_body_no_cleanup [of cover "env i"]
  have evs: "Release \<notin> set evs" "DestroyAllWindows \<notin> set evs" by simp_all
  show ?case
  proof (cases r)
    case (Inl e)
    with body evs show ?thesis by simp
  next
    case (Inr c)
    with body evs Suc.IH [of "Suc i"] show ?thesis by (cases c) simp_all
  qed
qed

lemma key_world_returns: "snd (main blank_raster third_fails_fifth_key 5) = Returned"
  by (simp add: main_def third_fails_fifth_key_def eval_nat_numeral loop_body_success
        loop_body_failed_read failed_pass_def empty_pass_def key_pass_def quiet_def)

lemma faulty_world_propagates:
  "s \<noteq> AtRead \<Longrightarrow>
   snd (main blank_raster (faulty_world s) 2) = Propagated (LibraryError ''cv2.error'')"
  by (cases s)
     (simp_all add: main_def faulty_world_def eval_nat_numeral loop_body_success
        empty_pass_def quiet_def faulty_pass_def loop_body_def raise_or_def emit_def
        add_legend_panel_Inr Let_def)

text \<open>
  C3. Whenever the loop is left, by the break after a key press or by an exception raised
  in the loop body (by the read, a detector, a drawing call, the display or the key
  check), the camera is released and the windows are closed, in this order and as the last
  two events, before \<open>main\<close> returns or the exception goes on to the caller; neither
  happens earlier.
\<close>

theorem cleanup_on_every_exit:
  assumes "camera_opens wd" and "snd (main cover wd fuel) \<noteq> Looping"
  shows "\<exists>before. fst (main cover wd fuel)
            = [VideoCapture 0, IsOpened] @ before @ [Release, DestroyAllWindows]
         \<and> Release \<notin> set before \<and> DestroyAllWindows \<notin> set before
         \<and> (snd (main cover wd fuel) = Returned
              \<and> snd (main_loop cover (passes wd) 0 fuel) = Broke
            \<or> (\<exists>e. snd (main cover wd fuel) = Propagated e
                  \<and> snd (main_loop cover (passes wd) 0 fuel) = Raised e))"
proof -
  obtain evs r where loop: "main_loop cover (passes wd) 0 fuel = (evs, r)"
    by (cases "main_loop cover (passes wd) 0 fuel")
  with main_loop_no_cleanup [of cover "passes wd" 0 fuel]
  have evs: "Release \<notin> set evs" "DestroyAllWindows \<notin> set evs" by simp_all
  from assms loop evs show ?thesis
    by (cases r) (simp_all add: main_def)
qed

text \<open>Four runs: the third read fails and a key is pressed in the fifth pass; the
  second pass raises in the landmark detector, in the rectangle drawing, in the display.\<close>

theorem cleanup_on_every_exit_witness:
  "camera_opens third_fails_fifth_key
   \<and> snd (main blank_raster third_fails_fifth_key 5) = Returned
   \<and> (\<exists>before. fst (main blank_raster third_fails_fifth_key 5)
          = [VideoCapture 0, IsOpened] @ before @ [Release, DestroyAllWindows])
   \<and> camera_opens (faulty_world AtFaceLandmarks)
   \<and> snd (main blank_raster (faulty_world AtFaceLandmarks) 2)
        = Propagated (LibraryError ''cv2.error'')
   \<and> (\<exists>before. fst (main blank_raster (faulty_world AtFaceLandmarks) 2)
          = [VideoCapture 0, IsOpened] @ before @ [Release, DestroyAllWindows])
   \<and> camera_opens (faulty_world AtRectangle)
   \<and> snd (main blank_raster (faulty_world AtRectangle) 2)
        = Propagated (LibraryError ''cv2.error'')
   \<and> (\<exists>before. fst (main blank_raster (faulty_world AtRectangle) 2)
          = [VideoCapture 0, IsOpened] @ before @ [Release, DestroyAllWindows])
   \<and> camera_opens (faulty_world AtImshow)
   \<and> snd (main blank_raster (faulty_world AtImshow) 2)
        = Propagated (LibraryError ''cv2.error'')
   \<and> (\<exists>before. fst (main blank_raster (faulty_world AtImshow) 2)
          = [VideoCapture 0, IsOpened] @ before @ [Release, DestroyAllWindows])"
proof -
  have k: "camera_opens third_fails_fifth_key" by (simp add: third_fails_fifth_key_def)
  have f: "camera_opens (faulty_world s)" for s by (simp add: faulty_world_def)
  have "\<exists>before. fst (main blank_raster third_fails_fifth_key 5)
          = [VideoCapture 0, IsOpened] @ before @ [Release, DestroyAllWindows]"
    using cleanup_on_every_exit [OF k, of blank_raster 5] key_world_returns by auto
  moreover have "\<exists>before. fst (main blank_raster (faulty_world s) 2)
          = [VideoCapture 0, IsOpened] @ before @ [Release, DestroyAllWindows]"
    if "s \<noteq> AtRead" for s
    using cleanup_on_every_exit [OF f, of blank_raster s 2] faulty_world_propagates [OF that]
    by auto
  ultimately show ?thesis
    using k f key_world_returns faulty_world_propagates by simp
qed

text \<open>
  C5, as stated, fails: it says that the program ends with a status that signals failure
  when the camera cannot be opened. \<open>main\<close> prints the message and returns, the script
  ends after the call, and the process ends with status zero, as after a key press.
\<close>

theorem camera_unavailable_exit_status_counterexample:
  "script blank_raster no_camera 3
     = ([VideoCapture 0, IsOpened, Print open_error], Some Exit_zero)
   \<and> snd (script blank_raster no_camera 3) \<noteq> Some Exit_nonzero"
  by (simp add: script_def main_def no_camera_def)

text \<open>
  C5, amended. If the camera cannot be opened, the program prints the one error message and
  returns at once without entering the loop (no frame is read, whatever the loop's fuel);
  \<open>main\<close> returns normally, so the process ends with status zero: the failure is
  signalled by the message only.
\<close>

theorem camera_unavailable_returns:
  assumes "\<not> camera_opens wd"
  shows "main cover wd fuel = ([VideoCapture 0, IsOpened, Print open_error], Returned)
       \<and> script cover wd fuel = ([VideoCapture 0, IsOpened, Print open_error], Some Exit_zero)
       \<and> Read \<notin> set (fst (main cover wd fuel))"
  using assms by (simp add: script_def main_def)

text \<open>A world whose camera does not open.\<close>

theorem camera_unavailable_returns_witness:
  "\<not> camera_opens no_camera
   \<and> main blank_raster no_camera 10 = ([VideoCapture 0, IsOpened, Print open_error], Returned)"
proof -
  have a: "\<not> camera_opens no_camera" by (simp add: no_camera_def)
  from camera_unavailable_returns [OF a, of blank_raster 10] a show ?thesis by simp
qed

lemma flipped_pixel:
  assumes "is_frame h w frame0" and "y < h" and "x < w"
  shows "channels_reversed (cv2_flip frame0 1) ! y ! x
           = reverse_channels (frame0 ! y ! (w - 1 - x))"
proof -
  from assms(1,2) have y: "y < length frame0" and row: "length (frame0 ! y) = w"
    by (simp_all add: is_frame_def list_all_length)
  from assms(3) row have x: "x < length (frame0 ! y)" by simp
  have "rev (frame0 ! y) ! x = frame0 ! y ! (w - Suc x)"
    using x row by (simp add: rev_nth)
  with y x show ?thesis
    by (simp add: channels_reversed_def cv2_flip_def)
qed

text \<open>
  C8. In a pass whose read delivers a frame, every detector call of the pass is given the
  same image: the captured frame flipped horizontally, with the channel order of every
  pixel reversed (the pixel of row y and column x of that image is the captured pixel of
  row y and column w - 1 - x, its blue-green-red channels read as red-green-blue). When no
  call raises, the pass calls the face detector and then the landmark detector with that
  image, and what it draws on and displays is the flipped frame. The reversed image is a
  view of the frame, and the frame is drawn on only after both detector calls.
\<close>

theorem detectors_get_flipped_rgb:
  assumes "captured ps = Some frame0"
  shows "(\<forall>img. FaceLocations img \<in> set (fst (loop_body cover ps))
               \<or> FaceLandmarks img \<in> set (fst (loop_body cover ps))
            \<longrightarrow> img = channels_reversed (cv2_flip frame0 1))
       \<and> ((\<forall>s. raises ps s = None) \<longrightarrow>
            (\<exists>shown. fst (loop_body cover ps) =
               [Read,
                FaceLocations (channels_reversed (cv2_flip frame0 1)),
                FaceLandmarks (channels_reversed (cv2_flip frame0 1)),
                Imshow window_title shown,
                WaitKey 1]
             \<and> map (drop 200) shown =
                 draw_face_landmarks cover
                   (draw_boxes cover (cv2_flip frame0 1) (found_faces ps))
                   (found_landmarks ps)))
       \<and> (\<forall>h w y x. is_frame h w frame0 \<and> y < h \<and> x < w \<longrightarrow>
            channels_reversed (cv2_flip frame0 1) ! y ! x
              = (case frame0 ! y ! (w - 1 - x) of (b, g, r) \<Rightarrow> (r, g, b)))"
proof (intro conjI allI impI)
  fix img
  assume "FaceLocations img \<in> set (fst (loop_body cover ps))
               \<or> FaceLandmarks img \<in> set (fst (loop_body cover ps))"
  with assms show "img = channels_reversed (cv2_flip frame0 1)"
    by (rule loop_body_detector_calls)
next
  assume quiet: "\<forall>s. raises ps s = None"
  let ?drawn = "draw_face_landmarks cover
                   (draw_boxes cover (cv2_flip frame0 1) (found_faces ps))
                   (found_landmarks ps)"
  let ?legend = "legend_panel cover (length frame0)"
  have len: "length ?legend = length ?drawn"
    by (simp add: legend_panel_length draw_face_landmarks_def draw_boxes_def
          draw_all_length cv2_flip_length)
  have rows: "\<forall>row \<in> set ?legend. length row = 200"
    using legend_panel_is_frame [of "length frame0" cover]
    by (simp add: is_frame_def list_all_iff)
  have "map (drop 200) (map2 (@) ?legend ?drawn) = ?drawn"
    using len rows by (rule hstack_drop)
  with loop_body_success [OF quiet assms, of cover]
  show "\<exists>shown. fst (loop_body cover ps) =
               [Read,
                FaceLocations (channels_reversed (cv2_flip frame0 1)),
                FaceLandmarks (channels_reversed (cv2_flip frame0 1)),
                Imshow window_title shown,
                WaitKey 1]
             \<and> map (drop 200) shown = ?drawn"
    by simp
next
  fix h w y x
  assume a: "is_frame h w frame0 \<and> y < h \<and> x < w"
  then have "channels_reversed (cv2_flip frame0 1) ! y ! x
           = reverse_channels (frame0 ! y ! (w - 1 - x))"
    using flipped_pixel [of h w frame0 y x] by simp
  then show "channels_reversed (cv2_flip frame0 1) ! y ! x
              = (case frame0 ! y ! (w - 1 - x) of (b, g, r) \<Rightarrow> (r, g, b))"
    by (cases "frame0 ! y ! (w - 1 - x)") simp
qed

text \<open>A pass that captures the frame of two pixels (1, 2, 3) and (4, 5, 6).\<close>

theorem detectors_get_flipped_rgb_witness:
  "captured empty_pass = Some tiny_frame \<and> (\<forall>s. raises empty_pass s = None)
   \<and> is_frame 1 2 tiny_frame
   \<and> take 3 (fst (loop_body blank_raster empty_pass))
       = [Read, FaceLocations [[(6, 5, 4), (3, 2, 1)]], FaceLandmarks [[(6, 5, 4), (3, 2, 1)]]]"
proof -
  have a: "captured empty_pass = Some tiny_frame" by (simp add: empty_pass_def)
  have b: "\<forall>s. raises empty_pass s = None" by (simp add: empty_pass_def quiet_def)
  have c: "is_frame 1 2 tiny_frame" by (simp add: is_frame_def tiny_frame_def)
  have d: "channels_reversed (cv2_flip tiny_frame 1) = [[(6, 5, 4), (3, 2, 1)]]"
    by (simp add: channels_reversed_def cv2_flip_def tiny_frame_def)
  from detectors_get_flipped_rgb [OF a, of blank_raster] b
  obtain shown where "fst (loop_body blank_raster empty_pass) =
               [Read,
                FaceLocations (channels_reversed (cv2_flip tiny_frame 1)),
                FaceLandmarks (channels_reversed (cv2_flip tiny_frame 1)),
                Imshow window_title shown,
                WaitKey 1]"
    by blast
  with a b c d show ?thesis by simp
qed

text \<open>
  C10. With no face location the box drawing leaves the frame as it is, with no landmark
  set the landmark drawing does; a pass in which no call raises and both detectors return
  empty sequences displays exactly the legend panel stacked to the left of the mirrored
  frame, no pixel of which is changed.
\<close>

theorem no_detection_leaves_frame:
  "draw_boxes cover frame [] = frame
   \<and> draw_face_landmarks cover frame [] = frame
   \<and> ((\<forall>s. raises ps s = None) \<and> captured ps = Some frame0
        \<and> found_faces ps = [] \<and> found_landmarks ps = [] \<longrightarrow>
      loop_body cover ps =
        ([Read,
          FaceLocations (channels_reversed (cv2_flip frame0 1)),
          FaceLandmarks (channels_reversed (cv2_flip frame0 1)),
          Imshow window_title
            (map2 (@) (legend_panel cover (shape0 (cv2_flip frame0 1))) (cv2_flip frame0 1)),
          WaitKey 1],
         Inr (if key_code ps > 0 then Break else Continue)))"
proof (intro conjI impI)
  show boxes: "draw_boxes cover frame [] = frame" by (simp add: draw_boxes_def)
  show marks: "draw_face_landmarks cover frame [] = frame"
    by (simp add: draw_face_landmarks_def)
  assume a: "(\<forall>s. raises ps s = None) \<and> captured ps = Some frame0
        \<and> found_faces ps = [] \<and> found_landmarks ps = []"
  then have "loop_body cover ps =
     ([Read,
       FaceLocations (channels_reversed (cv2_flip frame0 1)),
       FaceLandmarks (channels_reversed (cv2_flip frame0 1)),
       Imshow window_title
         (map2 (@)
            (legend_panel cover (length frame0))
            (draw_face_landmarks cover
               (draw_boxes cover (cv2_flip frame0 1) (found_faces ps)) (found_landmarks ps))),
       WaitKey 1],
      Inr (if key_code ps > 0 then Break else Continue))"
    by (intro loop_body_success) simp_all
  with a show "loop_body cover ps =
        ([Read,
          FaceLocations (channels_reversed (cv2_flip frame0 1)),
          FaceLandmarks (channels_reversed (cv2_flip frame0 1)),
          Imshow window_title
            (map2 (@) (legend_panel cover (shape0 (cv2_flip frame0 1))) (cv2_flip frame0 1)),
          WaitKey 1],
         Inr (if key_code ps > 0 then Break else Continue))"
    by (simp add: draw_boxes_def draw_face_landmarks_def shape0_def cv2_flip_length)
qed

text \<open>The pass that captures the two-pixel frame and detects nothing.\<close>

theorem no_detection_leaves_frame_witness:
  "(\<forall>s. raises empty_pass s = None) \<and> captured empty_pass = Some tiny_frame
   \<and> found_faces empty_pass = [] \<and> found_landmarks empty_pass = []
   \<and> loop_body blank_raster empty_pass =
        ([Read,
          FaceLocations [[(6, 5, 4), (3, 2, 1)]],
          FaceLandmarks [[(6, 5, 4), (3, 2, 1)]],
          Imshow window_title
            (map2 (@) (legend_panel blank_raster 1) [[(4, 5, 6), (1, 2, 3)]]),
          WaitKey 1],
         Inr Continue)"
proof -
  have a: "(\<forall>s. raises empty_pass s = None) \<and> captured empty_pass = Some tiny_frame
        \<and> found_faces empty_pass = [] \<and> found_landmarks empty_pass = []"
    by (simp add: empty_pass_def quiet_def)
  have d: "channels_reversed (cv2_flip tiny_frame 1) = [[(6, 5, 4), (3, 2, 1)]]"
    "cv2_flip tiny_frame 1 = [[(4, 5, 6), (1, 2, 3)]]"
    by (simp_all add: channels_reversed_def cv2_flip_def tiny_frame_def)
  have k: "key_code empty_pass = - 1" by (simp add: empty_pass_def)
  from no_detection_leaves_frame [of blank_raster tiny_frame empty_pass tiny_frame] a
  show ?thesis by (simp add: d k shape0_def channels_reversed_def)
qed

text \<open>
  C9. Horizontal mirroring is an involution: flipping a frame twice with the flip code the
  main loop uses gives back the frame, pixel for pixel.
\<close>

theorem cv2_flip_horizontal_involution: "cv2_flip (cv2_flip frame 1) 1 = frame"
  by (simp add: cv2_flip_def comp_def)

end
